theory Spec2Isabelle
  imports Complex_Main
begin

section \<open>Data of the face-touch monitor (docs/app.js)\<close>

text \<open>
  JavaScript numbers are modelled as exact rationals: coordinates, margins, clock
  readings (\<open>Date.now() / 1000\<close>) and durations are values of type \<open>rat\<close>, and the
  comparisons \<open>>=\<close> and \<open><=\<close> of the source are the order of \<open>rat\<close>.
\<close>

record landmark =
  lx :: rat
  ly :: rat

record bbox =
  xCenter :: rat
  yCenter :: rat
  width :: rat
  height :: rat

record detection =
  boundingBox :: bbox

text \<open>
  A detector result is an object whose list property may be missing
  (\<open>results.detections\<close>, \<open>results.multiHandLandmarks\<close>): \<open>None\<close> is the missing
  property, and a cached result that was never delivered is \<open>None\<close> itself.
\<close>

record face_results =
  detections :: "detection list option"

record hand_results =
  multiHandLandmarks :: "landmark list list option"

record expandedBox =
  xMin :: rat
  xMax :: rat
  yMin :: rat
  yMax :: rat

text \<open>What has been painted on the canvas since it was last cleared.\<close>

datatype drawing =
    StrokeRect string rat rat rat rat rat
  | Line string rat rat rat rat rat
  | Disc string rat rat rat

text \<open>
  Lines written by \<open>console.log\<close> and \<open>console.error\<close>; the number is the duration
  that the source formats with \<open>toFixed(1)\<close>.
\<close>

datatype log_entry = LogAlert rat | LogTouchEnded rat | LogStartError

text \<open>
  The text of the duration element: what the page had at load time, or
  \<open>Duration: <d.toFixed(1)>s\<close> for the number \<open>d\<close>.
\<close>

datatype duration_label = PageText | DurationSeconds rat

text \<open>
  The object \<open>this\<close> of class \<open>HandsOff\<close> together with the parts of the browser it
  writes to: the interval timers that are active (handle and the \<open>freqIndex\<close> of the
  \<open>playBeep\<close> closure each one runs), the gain nodes connected to the audio
  destination, the tones emitted, the class lists and texts of the page elements, the
  canvas and its drawing context, and the console.  Handles returned by
  \<open>setInterval\<close> are positive integers, so a stored handle is truthy.  The camera,
  the video element, the two detector objects and the start/stop buttons are external
  collaborators whose state the logic below never reads; they are left out.
\<close>

record app =
  touchThreshold :: rat
  proximityThreshold :: rat
  enableSound :: bool
  isRunning :: bool
  touchStartTime :: "rat option"
  isTouching :: bool
  alertActive :: bool
  lastHandResults :: "hand_results option"
  lastFaceResults :: "face_results option"
  audioContext :: "unit option"
  alarmOscillator :: "nat option"
  alarmGain :: "nat option"
  alarmInterval :: "nat option"
  timers :: "(nat \<times> nat) list"
  next_timer :: nat
  gains :: "nat list"
  next_node :: nat
  tones :: "nat list"
  alertOverlay_active :: bool
  statusText :: string
  statusDot_touching :: bool
  durationText :: duration_label
  canvas :: "drawing list"
  canvas_width :: rat
  canvas_height :: rat
  strokeStyle :: string
  lineWidth :: rat
  fillStyle :: string
  console :: "log_entry list"

text \<open>
  A call either returns a value or throws a \<open>TypeError\<close>; the writes made before the
  throw stay, so the exception carries the state at the throw.
\<close>

datatype 'a outcome = Ok 'a | Threw app

fun state_of :: "app outcome \<Rightarrow> app" where
  "state_of (Ok s) = s"
| "state_of (Threw s) = s"

section \<open>Geometry: \<open>isHandNearFace\<close>\<close>

definition keyPoints :: "nat list" where
  "keyPoints = [0, 4, 8, 12, 16, 20]"

text \<open>
  The loop over the key points.  \<open>handLandmarks[idx]\<close> past the end of the array is
  \<open>undefined\<close>, and reading \<open>.x\<close> of it throws: \<open>None\<close>.
\<close>

fun keyPoints_loop :: "nat list \<Rightarrow> landmark list \<Rightarrow> expandedBox \<Rightarrow> bool option" where
  "keyPoints_loop [] handLandmarks box = Some False"
| "keyPoints_loop (idx # rest) handLandmarks box =
     (if idx < length handLandmarks then
        (let landmark = handLandmarks ! idx in
         if lx landmark \<ge> xMin box \<and> lx landmark \<le> xMax box \<and>
            ly landmark \<ge> yMin box \<and> ly landmark \<le> yMax box
         then Some True
         else keyPoints_loop rest handLandmarks box)
      else None)"

definition isHandNearFace :: "app \<Rightarrow> landmark list \<Rightarrow> bbox \<Rightarrow> bool option" where
  "isHandNearFace this handLandmarks faceBbox =
     (let margin = proximityThreshold this;
          box = \<lparr> xMin = xCenter faceBbox - (width faceBbox / 2) - margin,
                  xMax = xCenter faceBbox + (width faceBbox / 2) + margin,
                  yMin = yCenter faceBbox - (height faceBbox / 2) - margin,
                  yMax = yCenter faceBbox + (height faceBbox / 2) + margin \<rparr>
      in keyPoints_loop keyPoints handLandmarks box)"

section \<open>Drawing\<close>

definition connections :: "(nat \<times> nat) list" where
  "connections =
     [(0, 1), (1, 2), (2, 3), (3, 4),
      (0, 5), (5, 6), (6, 7), (7, 8),
      (0, 9), (9, 10), (10, 11), (11, 12),
      (0, 13), (13, 14), (14, 15), (15, 16),
      (0, 17), (17, 18), (18, 19), (19, 20),
      (5, 9), (9, 13), (13, 17)]"

text \<open>
  One stroked segment per connection; a connection whose end is past the end of the
  landmark array throws when its coordinate is read, after the earlier segments were
  painted.
\<close>

fun draw_connections :: "(nat \<times> nat) list \<Rightarrow> landmark list \<Rightarrow> app \<Rightarrow> app outcome" where
  "draw_connections [] landmarks this = Ok this"
| "draw_connections ((start, end) # rest) landmarks this =
     (if start < length landmarks \<and> end < length landmarks then
        (let startPoint = landmarks ! start; endPoint = landmarks ! end in
         draw_connections rest landmarks
           (this\<lparr>canvas := canvas this @
              [Line (strokeStyle this) (lineWidth this)
                 (lx startPoint * canvas_width this) (ly startPoint * canvas_height this)
                 (lx endPoint * canvas_width this) (ly endPoint * canvas_height this)]\<rparr>))
      else Threw this)"

definition draw_dot :: "app \<Rightarrow> landmark \<Rightarrow> drawing" where
  "draw_dot this landmark =
     Disc (fillStyle this) (lx landmark * canvas_width this) (ly landmark * canvas_height this) 3"

definition drawHandLandmarks :: "landmark list \<Rightarrow> app \<Rightarrow> app outcome" where
  "drawHandLandmarks landmarks this =
     (case draw_connections connections landmarks
             (this\<lparr>strokeStyle := ''#FF0000'', lineWidth := 2\<rparr>) of
        Threw s \<Rightarrow> Threw s
      | Ok s \<Rightarrow>
          (let s1 = s\<lparr>fillStyle := ''#00FF00''\<rparr>
           in Ok (s1\<lparr>canvas := canvas s1 @ map (draw_dot s1) landmarks\<rparr>)))"

section \<open>Alarm controller: \<open>startAlarm\<close>, its \<open>playBeep\<close> closure, \<open>stopAlarm\<close>\<close>

definition frequencies :: "nat list" where
  "frequencies = [1200, 800]"

text \<open>
  \<open>playBeep\<close> with the current value of the closure variable \<open>freqIndex\<close>; it returns
  the new value.  Creating a node on a missing audio context throws, connecting to a
  missing \<open>alarmGain\<close> throws, and so does assigning \<open>undefined\<close> as a frequency.
\<close>

definition playBeep :: "nat \<Rightarrow> app \<Rightarrow> (app \<times> nat) outcome" where
  "playBeep freqIndex this =
     (if \<not> enableSound this \<or> \<not> alertActive this then Ok (this, freqIndex)
      else if audioContext this = None then Threw this
      else if alarmGain this = None then Threw this
      else if \<not> freqIndex < length frequencies then Threw this
      else Ok (this\<lparr>tones := tones this @ [frequencies ! freqIndex]\<rparr>,
               (freqIndex + 1) mod length frequencies))"

definition startAlarm :: "app \<Rightarrow> app outcome" where
  "startAlarm this =
     (if \<not> enableSound this \<or> alarmOscillator this \<noteq> None then Ok this
      else if audioContext this = None then Threw this
      else
        (let node = next_node this;
             s1 = this\<lparr>alarmGain := Some node, gains := gains this @ [node],
                       next_node := Suc node\<rparr>
         in case playBeep 0 s1 of
              Threw s \<Rightarrow> Threw s
            | Ok (s2, freqIndex) \<Rightarrow>
                (let handle = next_timer s2
                 in Ok (s2\<lparr>alarmInterval := Some handle,
                           timers := timers s2 @ [(handle, freqIndex)],
                           next_timer := Suc handle\<rparr>))))"

definition stopAlarm :: "app \<Rightarrow> app" where
  "stopAlarm this =
     (let s1 = (case alarmInterval this of
                  Some handle \<Rightarrow>
                    this\<lparr>timers := filter (\<lambda>e. fst e \<noteq> handle) (timers this),
                         alarmInterval := None\<rparr>
                | None \<Rightarrow> this);
          s2 = (case alarmGain s1 of
                  Some node \<Rightarrow>
                    s1\<lparr>gains := filter (\<lambda>n. n \<noteq> node) (gains s1), alarmGain := None\<rparr>
                | None \<Rightarrow> s1)
      in s2\<lparr>alarmOscillator := None\<rparr>)"

section \<open>Touch state machine: \<open>updateStatus\<close>, \<open>updateTouchState\<close>\<close>

definition updateStatus :: "string \<Rightarrow> bool \<Rightarrow> app \<Rightarrow> app" where
  "updateStatus text isTouching' this =
     this\<lparr>statusText := text, statusDot_touching := isTouching'\<rparr>"

text \<open>\<open>currentTime - this.touchStartTime\<close>: a \<open>null\<close> start time counts as 0.\<close>

definition duration_since :: "rat \<Rightarrow> rat option \<Rightarrow> rat" where
  "duration_since currentTime start =
     (case start of Some t \<Rightarrow> currentTime - t | None \<Rightarrow> currentTime)"

text \<open>The clock reading \<open>Date.now() / 1000\<close> is the argument \<open>currentTime\<close>.\<close>

definition updateTouchState :: "bool \<Rightarrow> rat \<Rightarrow> app \<Rightarrow> app outcome" where
  "updateTouchState touchingNow currentTime this =
     (if touchingNow then
        (if \<not> isTouching this then
           Ok (updateStatus ''TOUCHING'' True
                 (this\<lparr>touchStartTime := Some currentTime, isTouching := True,
                        alertActive := False\<rparr>))
         else
           (let duration = duration_since currentTime (touchStartTime this) in
            case (if duration \<ge> touchThreshold this \<and> \<not> alertActive this
                  then startAlarm (this\<lparr>alertActive := True,
                                         console := console this @ [LogAlert duration]\<rparr>)
                  else Ok this) of
              Threw s \<Rightarrow> Threw s
            | Ok s \<Rightarrow>
                Ok (if alertActive s
                    then s\<lparr>alertOverlay_active := True,
                           durationText := DurationSeconds duration\<rparr>
                    else s)))
      else
        (let s1 = (if isTouching this
                   then stopAlarm
                          (this\<lparr>console := console this @
                             [LogTouchEnded (duration_since currentTime (touchStartTime this))]\<rparr>)
                   else this)
         in Ok (updateStatus ''Clear'' False
                  (s1\<lparr>isTouching := False, touchStartTime := None, alertActive := False,
                      alertOverlay_active := False\<rparr>))))"

section \<open>Frame coordinator: \<open>processFrame\<close> and the detector callbacks\<close>

text \<open>The inner loop of \<open>processFrame\<close> over the hands, for one face box.\<close>

fun hands_loop :: "bbox \<Rightarrow> landmark list list \<Rightarrow> app \<Rightarrow> bool \<Rightarrow> (app \<times> bool) outcome" where
  "hands_loop bbox [] this touchingNow = Ok (this, touchingNow)"
| "hands_loop bbox (landmarks # rest) this touchingNow =
     (case drawHandLandmarks landmarks this of
        Threw s \<Rightarrow> Threw s
      | Ok s \<Rightarrow>
          (case isHandNearFace s landmarks bbox of
             None \<Rightarrow> Threw s
           | Some near \<Rightarrow> hands_loop bbox rest s (if near then True else touchingNow)))"

text \<open>The outer loop over the detections of the cached face result.\<close>

fun detections_loop :: "detection list \<Rightarrow> app \<Rightarrow> bool \<Rightarrow> (app \<times> bool) outcome" where
  "detections_loop [] this touchingNow = Ok (this, touchingNow)"
| "detections_loop (detection # rest) this touchingNow =
     (let bbox = boundingBox detection;
          s1 = this\<lparr>strokeStyle := ''#00FF00'', lineWidth := 2\<rparr>;
          s2 = s1\<lparr>canvas := canvas s1 @
                 [StrokeRect (strokeStyle s1) (lineWidth s1)
                    (xCenter bbox * canvas_width s1 - (width bbox * canvas_width s1) / 2)
                    (yCenter bbox * canvas_height s1 - (height bbox * canvas_height s1) / 2)
                    (width bbox * canvas_width s1)
                    (height bbox * canvas_height s1)]\<rparr>
      in case (case lastHandResults s2 of
                 None \<Rightarrow> Ok (s2, touchingNow)
               | Some hr \<Rightarrow>
                   (case multiHandLandmarks hr of
                      None \<Rightarrow> Ok (s2, touchingNow)
                    | Some hands \<Rightarrow> hands_loop bbox hands s2 touchingNow)) of
           Threw s \<Rightarrow> Threw s
         | Ok (s3, touchingNow') \<Rightarrow> detections_loop rest s3 touchingNow')"

text \<open>
  Lines 159 to 189 of \<open>processFrame\<close>: the local \<open>touchingNow\<close> starts false and the
  loops run when the cached face result and its \<open>detections\<close> are present.
\<close>

definition scan_detections :: "app \<Rightarrow> (app \<times> bool) outcome" where
  "scan_detections this =
     (case lastFaceResults this of
        None \<Rightarrow> Ok (this, False)
      | Some fr \<Rightarrow>
          (case detections fr of
             None \<Rightarrow> Ok (this, False)
           | Some ds \<Rightarrow> detections_loop ds this False))"

definition processFrame :: "rat \<Rightarrow> app \<Rightarrow> app outcome" where
  "processFrame currentTime this =
     (if \<not> isRunning this then Ok this
      else
        (case scan_detections (this\<lparr>canvas := []\<rparr>) of
           Threw s \<Rightarrow> Threw s
         | Ok (s, touchingNow) \<Rightarrow> updateTouchState touchingNow currentTime s))"

text \<open>The callbacks registered with \<open>hands.onResults\<close> and \<open>faceDetection.onResults\<close>.\<close>

definition onHandResults :: "hand_results \<Rightarrow> rat \<Rightarrow> app \<Rightarrow> app outcome" where
  "onHandResults results currentTime this =
     processFrame currentTime (this\<lparr>lastHandResults := Some results\<rparr>)"

definition onFaceResults :: "face_results \<Rightarrow> app \<Rightarrow> app" where
  "onFaceResults results this = this\<lparr>lastFaceResults := Some results\<rparr>"

text \<open>The value of the local \<open>touchingNow\<close> when the loops end, if they end.\<close>

fun touching_of :: "(app \<times> bool) outcome \<Rightarrow> bool option" where
  "touching_of (Ok (s, b)) = Some b"
| "touching_of (Threw s) = None"

section \<open>User controls, timer callbacks, start and stop\<close>

text \<open>The \<open>change\<close> listener of the sound checkbox.\<close>

definition soundToggle_change :: "bool \<Rightarrow> app \<Rightarrow> app" where
  "soundToggle_change checked this =
     (let s1 = this\<lparr>enableSound := checked\<rparr>
      in if \<not> enableSound s1 then stopAlarm s1 else s1)"

text \<open>
  The \<open>input\<close> listeners of the two sliders (the labels beside the sliders are left
  out).  The sensitivity handler reads \<open>thresholds[value - 1]\<close>; it is only used at the
  positions 1, 2 and 3 of the slider.
\<close>

definition thresholdSlider_input :: "rat \<Rightarrow> app \<Rightarrow> app" where
  "thresholdSlider_input v this = this\<lparr>touchThreshold := v\<rparr>"

definition thresholds :: "rat list" where
  "thresholds = [12 / 100, 8 / 100, 5 / 100]"

definition sensitivitySlider_input :: "nat \<Rightarrow> app \<Rightarrow> app" where
  "sensitivitySlider_input v this = this\<lparr>proximityThreshold := thresholds ! (v - 1)\<rparr>"

text \<open>
  An interval timer fires: the \<open>playBeep\<close> closure registered under the handle runs
  with its own \<open>freqIndex\<close>.  A handle that was cleared does not fire.
\<close>

definition timer_fires :: "nat \<Rightarrow> app \<Rightarrow> app outcome" where
  "timer_fires handle this =
     (case map_of (timers this) handle of
        None \<Rightarrow> Ok this
      | Some freqIndex \<Rightarrow>
          (case playBeep freqIndex this of
             Threw s \<Rightarrow> Threw s
           | Ok (s, freqIndex') \<Rightarrow>
               Ok (s\<lparr>timers := map (\<lambda>e. if fst e = handle then (handle, freqIndex') else e)
                                   (timers s)\<rparr>)))"

text \<open>
  \<open>start()\<close> when every awaited step succeeds, with the size of the video; assigning
  the canvas size clears the canvas and resets its drawing context.  The steps of
  \<open>start()\<close> are taken as one: the handlers that can run between its awaited steps
  write other fields than it does, or overwrite what it wrote, so that every state they
  lead to is also reached with the steps taken together.
\<close>

definition start_ok :: "rat \<Rightarrow> rat \<Rightarrow> app \<Rightarrow> app" where
  "start_ok videoWidth videoHeight this =
     updateStatus ''Clear'' False
       (this\<lparr>audioContext := Some (),
              canvas_width := videoWidth, canvas_height := videoHeight,
              canvas := [], strokeStyle := ''#000000'', lineWidth := 1,
              fillStyle := ''#000000'',
              isRunning := True\<rparr>)"

text \<open>
  \<open>start()\<close> when a step before the canvas is sized fails: the \<open>catch\<close> block logs
  the error.  The flag says whether the audio context had been created by then.
\<close>

definition start_failed :: "bool \<Rightarrow> app \<Rightarrow> app" where
  "start_failed created this =
     (if created then this\<lparr>audioContext := Some ()\<rparr> else this)
       \<lparr>console := console this @ [LogStartError]\<rparr>"

definition stop :: "app \<Rightarrow> app" where
  "stop this =
     (let s1 = stopAlarm (this\<lparr>isRunning := False\<rparr>);
          s2 = s1\<lparr>canvas := []\<rparr>
      in updateStatus ''Camera Off'' False
           (s2\<lparr>isTouching := False, touchStartTime := None, alertActive := False,
               alertOverlay_active := False\<rparr>))"

section \<open>The states the page can be in\<close>

datatype event =
    StartClick rat rat
  | StartClickFails bool
  | StopClick
  | SoundToggle bool
  | ThresholdInput rat
  | SensitivityInput nat
  | FaceResults face_results
  | HandResults hand_results rat
  | TimerFires nat

fun handle :: "event \<Rightarrow> app \<Rightarrow> app outcome" where
  "handle (StartClick w h) this = Ok (start_ok w h this)"
| "handle (StartClickFails created) this = Ok (start_failed created this)"
| "handle StopClick this = Ok (stop this)"
| "handle (SoundToggle checked) this = Ok (soundToggle_change checked this)"
| "handle (ThresholdInput v) this = Ok (thresholdSlider_input v this)"
| "handle (SensitivityInput v) this = Ok (sensitivitySlider_input v this)"
| "handle (FaceResults r) this = Ok (onFaceResults r this)"
| "handle (HandResults r currentTime) this = onHandResults r currentTime this"
| "handle (TimerFires h) this = timer_fires h this"

text \<open>
  Modelled from the spec: the page that declares the range of the sensitivity slider is
  not among the sources; the spec gives the three levels Low, Medium and High, which
  are the positions 1, 2 and 3 that index the table of the handler.
\<close>

fun possible :: "event \<Rightarrow> bool" where
  "possible (SensitivityInput v) = (1 \<le> v \<and> v \<le> 3)"
| "possible e = True"

text \<open>What the constructor assigns, with nothing running in the browser yet.\<close>

definition constructed :: "app \<Rightarrow> bool" where
  "constructed this \<longleftrightarrow>
     touchThreshold this = 1 \<and> proximityThreshold this = 8 / 100 \<and> enableSound this \<and>
     \<not> isRunning this \<and> touchStartTime this = None \<and> \<not> isTouching this \<and>
     \<not> alertActive this \<and> lastHandResults this = None \<and> lastFaceResults this = None \<and>
     audioContext this = None \<and> alarmOscillator this = None \<and> alarmGain this = None \<and>
     alarmInterval this = None \<and> timers this = [] \<and> gains this = [] \<and> tones this = [] \<and>
     console this = [] \<and> 0 < next_timer this"

text \<open>
  A handler that throws leaves the state as it was at the throw, and the page goes on
  from there.
\<close>

inductive reachable :: "app \<Rightarrow> bool" where
  reachable_init: "constructed s \<Longrightarrow> reachable s"
| reachable_step: "reachable s \<Longrightarrow> possible e \<Longrightarrow> reachable (state_of (handle e s))"

fun run :: "event list \<Rightarrow> app \<Rightarrow> app" where
  "run [] s = s"
| "run (e # es) s = run es (state_of (handle e s))"

text \<open>
  The alarm's resources against the touch state: the audio context exists while the
  monitor runs, touching is only recorded while it runs, \<open>alarmOscillator\<close> is never
  assigned, the only active timer and the only connected gain node are the ones the
  object holds, and it holds them only while alerting.
\<close>

definition alarm_inv :: "app \<Rightarrow> bool" where
  "alarm_inv s \<longleftrightarrow>
     (isRunning s \<longrightarrow> audioContext s \<noteq> None) \<and>
     (isTouching s \<longrightarrow> isRunning s) \<and>
     alarmOscillator s = None \<and>
     map fst (timers s) = (case alarmInterval s of None \<Rightarrow> [] | Some i \<Rightarrow> [i]) \<and>
     gains s = (case alarmGain s of None \<Rightarrow> [] | Some g \<Rightarrow> [g]) \<and>
     (alarmInterval s \<noteq> None \<longrightarrow> isTouching s \<and> alertActive s) \<and>
     (alarmGain s = None \<longleftrightarrow> alarmInterval s = None)"

text \<open>Two states that differ at most in what is painted and in the drawing styles.\<close>

definition same_but_canvas :: "app \<Rightarrow> app \<Rightarrow> bool" where
  "same_but_canvas s s' \<longleftrightarrow>
     s' = s\<lparr>canvas := canvas s', strokeStyle := strokeStyle s',
            lineWidth := lineWidth s', fillStyle := fillStyle s'\<rparr>"

section \<open>Notions used to state the properties\<close>

text \<open>A point inside an expanded box, bounds included; the box the source builds.\<close>

definition in_box :: "landmark \<Rightarrow> expandedBox \<Rightarrow> bool" where
  "in_box p box \<longleftrightarrow>
     xMin box \<le> lx p \<and> lx p \<le> xMax box \<and> yMin box \<le> ly p \<and> ly p \<le> yMax box"

definition expand :: "rat \<Rightarrow> bbox \<Rightarrow> expandedBox" where
  "expand margin b =
     \<lparr> xMin = xCenter b - (width b / 2) - margin,
       xMax = xCenter b + (width b / 2) + margin,
       yMin = yCenter b - (height b / 2) - margin,
       yMax = yCenter b + (height b / 2) + margin \<rparr>"

definition near :: "rat \<Rightarrow> landmark list \<Rightarrow> bbox \<Rightarrow> bool" where
  "near margin hand b \<longleftrightarrow> (\<exists>i \<in> set keyPoints. in_box (hand ! i) (expand margin b))"

text \<open>A point on one of the four sides of a face box.\<close>

definition on_box_edge :: "landmark \<Rightarrow> bbox \<Rightarrow> bool" where
  "on_box_edge p b \<longleftrightarrow>
     ((lx p = xCenter b - width b / 2 \<or> lx p = xCenter b + width b / 2) \<and>
      yCenter b - height b / 2 \<le> ly p \<and> ly p \<le> yCenter b + height b / 2) \<or>
     ((ly p = yCenter b - height b / 2 \<or> ly p = yCenter b + height b / 2) \<and>
      xCenter b - width b / 2 \<le> lx p \<and> lx p \<le> xCenter b + width b / 2)"

text \<open>
  The value of \<open>touchingNow\<close> as a function of the margin, the faces and the hands
  alone; \<open>None\<close> when a hand has fewer than 21 landmarks and drawing it throws.
\<close>

fun touch_hands :: "rat \<Rightarrow> bbox \<Rightarrow> landmark list list \<Rightarrow> bool \<Rightarrow> bool option" where
  "touch_hands margin b [] tn = Some tn"
| "touch_hands margin b (h # hs) tn =
     (if 21 \<le> length h then touch_hands margin b hs (near margin h b \<or> tn) else None)"

definition hands_of :: "hand_results option \<Rightarrow> landmark list list" where
  "hands_of r = (case r of None \<Rightarrow> [] | Some hr \<Rightarrow> (case multiHandLandmarks hr of None \<Rightarrow> [] | Some hs \<Rightarrow> hs))"

definition faces_of :: "face_results option \<Rightarrow> detection list" where
  "faces_of r = (case r of None \<Rightarrow> [] | Some fr \<Rightarrow> (case detections fr of None \<Rightarrow> [] | Some ds \<Rightarrow> ds))"

fun touch_faces :: "rat \<Rightarrow> detection list \<Rightarrow> landmark list list \<Rightarrow> bool \<Rightarrow> bool option" where
  "touch_faces margin [] hs tn = Some tn"
| "touch_faces margin (d # ds) hs tn =
     (case touch_hands margin (boundingBox d) hs tn of
        None \<Rightarrow> None
      | Some tn' \<Rightarrow> touch_faces margin ds hs tn')"

text \<open>
  The alarm's resources: both handles, the handles of the active timers, the connected
  gain nodes and the two allocation counters; and what a handler may do to them while
  the alarm runs: leave them, or stop the alarm without allocating anything.
\<close>

definition alarm_resources :: "app \<Rightarrow> nat option \<times> nat option \<times> nat list \<times> nat list \<times> nat \<times> nat" where
  "alarm_resources s =
     (alarmInterval s, alarmGain s, map fst (timers s), gains s, next_timer s, next_node s)"


text \<open>The two detector callbacks among the events.\<close>

fun is_hand_event :: "event \<Rightarrow> bool" where
  "is_hand_event (HandResults r t) = True"
| "is_hand_event e = False"

fun is_face_event :: "event \<Rightarrow> bool" where
  "is_face_event (FaceResults r) = True"
| "is_face_event e = False"

text \<open>Whether a call returned, and the state a pair of loops ended in.\<close>

fun returned :: "'a outcome \<Rightarrow> bool" where
  "returned (Ok v) = True"
| "returned (Threw s) = False"

fun final_state :: "(app \<times> bool) outcome \<Rightarrow> app" where
  "final_state (Ok (s, b)) = s"
| "final_state (Threw s) = s"

text \<open>Consecutive evaluations with \<open>touchingNow = true\<close> at the given clock readings.\<close>

fun touching_run :: "rat list \<Rightarrow> app \<Rightarrow> app outcome" where
  "touching_run [] s = Ok s"
| "touching_run (t # ts) s =
     (case updateTouchState True t s of
        Threw s' \<Rightarrow> Threw s'
      | Ok s' \<Rightarrow> touching_run ts s')"

section \<open>Concrete states\<close>

text \<open>
  A freshly constructed object on a page with a 300 by 150 canvas, the same object
  after a successful start, and the object after a face and a hand at the centre of
  the frame were seen at the clock readings 10 and 11: it is alerting and its alarm
  runs.
\<close>

definition app0 :: app where
  "app0 = \<lparr> touchThreshold = 1, proximityThreshold = 8 / 100, enableSound = True,
     isRunning = False, touchStartTime = None, isTouching = False, alertActive = False,
     lastHandResults = None, lastFaceResults = None, audioContext = None,
     alarmOscillator = None, alarmGain = None, alarmInterval = None,
     timers = [], next_timer = 1, gains = [], next_node = 0, tones = [],
     alertOverlay_active = False, statusText = ''Camera Off'', statusDot_touching = False,
     durationText = PageText, canvas = [], canvas_width = 300, canvas_height = 150,
     strokeStyle = ''#000000'', lineWidth = 1, fillStyle = ''#000000'', console = [] \<rparr>"

definition face_ex :: face_results where
  "face_ex = \<lparr> detections = Some [\<lparr> boundingBox =
      \<lparr> xCenter = 1 / 2, yCenter = 1 / 2, width = 2 / 10, height = 2 / 10 \<rparr> \<rparr>] \<rparr>"

definition hand_ex :: hand_results where
  "hand_ex = \<lparr> multiHandLandmarks = Some [replicate 21 \<lparr> lx = 1 / 2, ly = 1 / 2 \<rparr>] \<rparr>"

definition running_ex :: app where
  "running_ex = run [StartClick 640 480] app0"

definition alerting_ex :: app where
  "alerting_ex = run [StartClick 640 480, FaceResults face_ex, HandResults hand_ex 10,
                      HandResults hand_ex 11] app0"

text \<open>
  A started monitor that has seen two faces, and the same state with a cached hand
  result whose only hand is over the second face; a hand whose index fingertip
  (landmark 8) lies on the left side of the face box.
\<close>

definition far_face :: detection where
  "far_face = \<lparr> boundingBox =
      \<lparr> xCenter = 1 / 10, yCenter = 1 / 10, width = 1 / 10, height = 1 / 10 \<rparr> \<rparr>"

definition near_face :: detection where
  "near_face = \<lparr> boundingBox =
      \<lparr> xCenter = 1 / 2, yCenter = 1 / 2, width = 2 / 10, height = 2 / 10 \<rparr> \<rparr>"

definition centre_hand :: "landmark list" where
  "centre_hand = replicate 21 \<lparr> lx = 1 / 2, ly = 1 / 2 \<rparr>"

definition two_faces_seen :: app where
  "two_faces_seen = run [StartClick 640 480,
                         FaceResults \<lparr> detections = Some [far_face, near_face] \<rparr>] app0"

definition one_hand :: hand_results where
  "one_hand = \<lparr> multiHandLandmarks = Some [centre_hand] \<rparr>"

definition two_faces_ex :: app where
  "two_faces_ex = two_faces_seen\<lparr>lastHandResults := Some one_hand\<rparr>"

definition edge_hand :: "landmark list" where
  "edge_hand = (replicate 21 \<lparr> lx = 0, ly = 0 \<rparr>)[8 := \<lparr> lx = 4 / 10, ly = 1 / 2 \<rparr>]"

section \<open>Geometry lemmas\<close>

lemma keyPoints_loop_in_range:
  "\<forall>i \<in> set ks. i < length h \<Longrightarrow>
   keyPoints_loop ks h box = Some (\<exists>i \<in> set ks. in_box (h ! i) box)"
  by (induction ks) (auto simp: in_box_def Let_def)

lemma keyPoints_below_21: "i \<in> set keyPoints \<Longrightarrow> i < 21"
  by (auto simp: keyPoints_def)

lemma isHandNearFace_near:
  assumes "21 \<le> length h"
  shows "isHandNearFace s h b = Some (near (proximityThreshold s) h b)"
proof -
  have "\<forall>i \<in> set keyPoints. i < length h"
    using assms keyPoints_below_21 by fastforce
  then show ?thesis
    by (simp add: isHandNearFace_def Let_def near_def expand_def keyPoints_loop_in_range)
qed

section \<open>Drawing changes the canvas and nothing else\<close>

lemma same_but_canvas_refl: "same_but_canvas s s"
  by (simp add: same_but_canvas_def)

lemma same_but_canvas_trans:
  "same_but_canvas s s' \<Longrightarrow> same_but_canvas s' s'' \<Longrightarrow> same_but_canvas s s''"
  unfolding same_but_canvas_def
  by (cases s, cases s', cases s'') simp

lemma same_but_canvas_paint:
  "same_but_canvas s (s\<lparr>canvas := c\<rparr>)"
  "same_but_canvas s (s\<lparr>strokeStyle := a, lineWidth := w\<rparr>)"
  "same_but_canvas s (s\<lparr>fillStyle := a\<rparr>)"
  by (simp_all add: same_but_canvas_def)

lemma same_but_canvas_fields:
  assumes "same_but_canvas s s'"
  shows "proximityThreshold s' = proximityThreshold s"
    and "lastHandResults s' = lastHandResults s"
    and "lastFaceResults s' = lastFaceResults s"
  using assms unfolding same_but_canvas_def
  by (cases s, cases s', simp)+

lemma draw_connections_same:
  "same_but_canvas s (case draw_connections cs lm s of Ok s' \<Rightarrow> s' | Threw s' \<Rightarrow> s')"
proof (induction cs arbitrary: s)
  case Nil
  show ?case by (simp add: same_but_canvas_refl)
next
  case (Cons c cs)
  obtain a b where c: "c = (a, b)" by (cases c)
  show ?case
  proof (cases "a < length lm \<and> b < length lm")
    case True
    define s1 where "s1 = s\<lparr>canvas := canvas s @
        [Line (strokeStyle s) (lineWidth s)
           (lx (lm ! a) * canvas_width s) (ly (lm ! a) * canvas_height s)
           (lx (lm ! b) * canvas_width s) (ly (lm ! b) * canvas_height s)]\<rparr>"
    have step: "draw_connections (c # cs) lm s = draw_connections cs lm s1"
      using True by (simp add: c s1_def Let_def)
    have "same_but_canvas s s1"
      unfolding s1_def by (rule same_but_canvas_paint(1))
    then show ?thesis
      unfolding step by (rule same_but_canvas_trans) (rule Cons.IH)
  next
    case False
    then have "draw_connections (c # cs) lm s = Threw s"
      by (auto simp: c)
    then show ?thesis by (simp add: same_but_canvas_refl)
  qed
qed

lemma draw_connections_returned:
  "returned (draw_connections cs lm s) =
   list_all (\<lambda>c. fst c < length lm \<and> snd c < length lm) cs"
  by (induction cs arbitrary: s) (auto simp: Let_def split: if_splits)

lemma connections_in_range:
  "list_all (\<lambda>c. fst c < length lm \<and> snd c < length lm) connections = (21 \<le> length lm)"
  by (auto simp: connections_def)

lemma drawHandLandmarks_cases:
  "(21 \<le> length lm \<and> (\<exists>s'. drawHandLandmarks lm s = Ok s' \<and> same_but_canvas s s')) \<or>
   (\<not> 21 \<le> length lm \<and> (\<exists>s'. drawHandLandmarks lm s = Threw s' \<and> same_but_canvas s s'))"
proof -
  let ?s0 = "s\<lparr>strokeStyle := ''#FF0000'', lineWidth := 2\<rparr>"
  have ret: "returned (draw_connections connections lm ?s0) = (21 \<le> length lm)"
    by (simp only: draw_connections_returned connections_in_range)
  have same0: "same_but_canvas s ?s0"
    by (rule same_but_canvas_paint(2))
  show ?thesis
  proof (cases "draw_connections connections lm ?s0")
    case (Ok s1)
    have "same_but_canvas ?s0 s1"
      using draw_connections_same [of ?s0 connections lm] by (simp add: Ok)
    with same0 have s1: "same_but_canvas s s1"
      by (rule same_but_canvas_trans)
    let ?s2 = "s1\<lparr>fillStyle := ''#00FF00''\<rparr>"
    have "same_but_canvas s1 ?s2"
      by (rule same_but_canvas_paint(3))
    with s1 have s2: "same_but_canvas s ?s2"
      by (rule same_but_canvas_trans)
    have "same_but_canvas ?s2 (?s2\<lparr>canvas := canvas ?s2 @ map (draw_dot ?s2) lm\<rparr>)"
      by (rule same_but_canvas_paint(1))
    with s2 have "same_but_canvas s (?s2\<lparr>canvas := canvas ?s2 @ map (draw_dot ?s2) lm\<rparr>)"
      by (rule same_but_canvas_trans)
    moreover have "drawHandLandmarks lm s =
        Ok (?s2\<lparr>canvas := canvas ?s2 @ map (draw_dot ?s2) lm\<rparr>)"
      by (simp add: drawHandLandmarks_def Ok Let_def)
    moreover have "21 \<le> length lm"
      using ret by (simp add: Ok)
    ultimately show ?thesis by simp
  next
    case (Threw s1)
    have "same_but_canvas ?s0 s1"
      using draw_connections_same [of ?s0 connections lm] by (simp add: Threw)
    with same0 have "same_but_canvas s s1"
      by (rule same_but_canvas_trans)
    moreover have "drawHandLandmarks lm s = Threw s1"
      by (simp add: drawHandLandmarks_def Threw)
    moreover have "\<not> 21 \<le> length lm"
      using ret by (simp add: Threw)
    ultimately show ?thesis by simp
  qed
qed

section \<open>The loops of \<open>processFrame\<close> compute the pure geometry\<close>

lemma hands_loop_pure:
  "same_but_canvas s (final_state (hands_loop b hs s tn)) \<and>
   touching_of (hands_loop b hs s tn) = touch_hands (proximityThreshold s) b hs tn"
proof (induction hs arbitrary: s tn)
  case Nil
  show ?case by (simp add: same_but_canvas_refl)
next
  case (Cons h hs)
  show ?case
  proof (cases "21 \<le> length h")
    case True
    then obtain s1 where s1: "drawHandLandmarks h s = Ok s1" and same1: "same_but_canvas s s1"
      using drawHandLandmarks_cases [of h s] by auto
    have pt: "proximityThreshold s1 = proximityThreshold s"
      using same1 by (rule same_but_canvas_fields)
    have step: "hands_loop b (h # hs) s tn =
        hands_loop b hs s1 (near (proximityThreshold s) h b \<or> tn)"
      using True by (simp add: s1 isHandNearFace_near pt)
    have "same_but_canvas s (final_state (hands_loop b hs s1 (near (proximityThreshold s) h b \<or> tn)))"
      using same1 by (rule same_but_canvas_trans) (simp add: Cons.IH)
    then show ?thesis
      unfolding step using True by (simp add: Cons.IH pt)
  next
    case False
    then obtain s1 where s1: "drawHandLandmarks h s = Threw s1" and same1: "same_but_canvas s s1"
      using drawHandLandmarks_cases [of h s] by auto
    then show ?thesis using False by simp
  qed
qed

lemma detections_loop_pure:
  "same_but_canvas s (final_state (detections_loop ds s tn)) \<and>
   touching_of (detections_loop ds s tn) =
     touch_faces (proximityThreshold s) ds (hands_of (lastHandResults s)) tn"
proof (induction ds arbitrary: s tn)
  case Nil
  show ?case by (simp add: same_but_canvas_refl)
next
  case (Cons d ds)
  let ?bb = "boundingBox d"
  let ?s1 = "s\<lparr>strokeStyle := ''#00FF00'', lineWidth := 2\<rparr>"
  let ?s2 = "?s1\<lparr>canvas := canvas ?s1 @
                 [StrokeRect (strokeStyle ?s1) (lineWidth ?s1)
                    (xCenter ?bb * canvas_width ?s1 - (width ?bb * canvas_width ?s1) / 2)
                    (yCenter ?bb * canvas_height ?s1 - (height ?bb * canvas_height ?s1) / 2)
                    (width ?bb * canvas_width ?s1)
                    (height ?bb * canvas_height ?s1)]\<rparr>"
  define s2 where "s2 = ?s2"
  define bb where "bb = ?bb"
  define inner where "inner = hands_loop bb (hands_of (lastHandResults s)) s2 tn"
  have "same_but_canvas s ?s1"
    by (rule same_but_canvas_paint(2))
  moreover have "same_but_canvas ?s1 s2"
    unfolding s2_def by (rule same_but_canvas_paint(1))
  ultimately have same2: "same_but_canvas s s2"
    by (rule same_but_canvas_trans)
  have pt2: "proximityThreshold s2 = proximityThreshold s"
    and hr2: "lastHandResults s2 = lastHandResults s"
    using same2 by (rule same_but_canvas_fields)+
  have inner_eq: "(case lastHandResults s2 of
                 None \<Rightarrow> Ok (s2, tn)
               | Some hr \<Rightarrow>
                   (case multiHandLandmarks hr of
                      None \<Rightarrow> Ok (s2, tn)
                    | Some hands \<Rightarrow> hands_loop bb hands s2 tn)) = inner"
    by (simp add: inner_def hr2 hands_of_def split: option.splits)
  have "detections_loop (d # ds) s tn =
      (case (case lastHandResults ?s2 of
                 None \<Rightarrow> Ok (?s2, tn)
               | Some hr \<Rightarrow>
                   (case multiHandLandmarks hr of
                      None \<Rightarrow> Ok (?s2, tn)
                    | Some hands \<Rightarrow> hands_loop ?bb hands ?s2 tn)) of
          Threw s' \<Rightarrow> Threw s' | Ok (s3, tn') \<Rightarrow> detections_loop ds s3 tn')"
    unfolding detections_loop.simps Let_def ..
  then have step: "detections_loop (d # ds) s tn =
      (case inner of Threw s' \<Rightarrow> Threw s' | Ok (s3, tn') \<Rightarrow> detections_loop ds s3 tn')"
    unfolding inner_eq [symmetric] s2_def bb_def .
  have inner_same: "same_but_canvas s2 (final_state inner)"
    and inner_touch: "touching_of inner = touch_hands (proximityThreshold s) bb (hands_of (lastHandResults s)) tn"
    unfolding inner_def using hands_loop_pure [of s2 bb "hands_of (lastHandResults s)" tn]
    by (simp_all add: pt2)
  show ?case
  proof (cases inner)
    case (Threw s')
    have "same_but_canvas s s'"
      using same2 inner_same by (simp add: Threw same_but_canvas_trans [of s s2 s'])
    then show ?thesis
      unfolding step using inner_touch [symmetric] by (simp add: Threw bb_def)
  next
    case (Ok r)
    obtain s3 tn' where r: "r = (s3, tn')" by (cases r)
    have same3: "same_but_canvas s s3"
      using same2 inner_same by (simp add: Ok r same_but_canvas_trans [of s s2 s3])
    have pt3: "proximityThreshold s3 = proximityThreshold s"
      and hr3: "lastHandResults s3 = lastHandResults s"
      using same3 by (rule same_but_canvas_fields)+
    have "same_but_canvas s (final_state (detections_loop ds s3 tn'))"
      using same3 by (rule same_but_canvas_trans) (simp add: Cons.IH)
    then show ?thesis
      unfolding step using inner_touch [symmetric] by (simp add: Ok r bb_def Cons.IH pt3 hr3)
  qed
qed

lemma scan_detections_pure:
  "same_but_canvas s (final_state (scan_detections s))"
  "touching_of (scan_detections s) =
     touch_faces (proximityThreshold s) (faces_of (lastFaceResults s))
       (hands_of (lastHandResults s)) False"
  by (simp_all add: scan_detections_def faces_of_def detections_loop_pure same_but_canvas_refl
        split: option.splits)

lemma touch_hands_wf:
  "\<forall>h \<in> set hs. 21 \<le> length h \<Longrightarrow>
   touch_hands m b hs tn = Some (tn \<or> (\<exists>h \<in> set hs. near m h b))"
  by (induction hs arbitrary: tn) auto

lemma touch_faces_wf:
  "\<forall>h \<in> set hs. 21 \<le> length h \<Longrightarrow>
   touch_faces m ds hs tn = Some (tn \<or> (\<exists>d \<in> set ds. \<exists>h \<in> set hs. near m h (boundingBox d)))"
  by (induction ds arbitrary: tn) (auto simp: touch_hands_wf)

section \<open>The alarm controller and the state machine, branch by branch\<close>

lemma startAlarm_sound:
  assumes "enableSound s" and "alarmOscillator s = None" and "audioContext s \<noteq> None"
    and "alertActive s"
  shows "startAlarm s =
     Ok (s\<lparr>alarmGain := Some (next_node s), gains := gains s @ [next_node s],
            next_node := Suc (next_node s), tones := tones s @ [1200],
            alarmInterval := Some (next_timer s),
            timers := timers s @ [(next_timer s, 1)],
            next_timer := Suc (next_timer s)\<rparr>)"
  using assms by (simp add: startAlarm_def playBeep_def frequencies_def Let_def)

lemma startAlarm_silent: "\<not> enableSound s \<Longrightarrow> startAlarm s = Ok s"
  by (simp add: startAlarm_def)

lemma filter_own_handle: "map fst ts = [i] \<Longrightarrow> filter (\<lambda>e. fst e \<noteq> i) ts = []"
  by (cases ts) auto

lemma stopAlarm_clears:
  assumes "map fst (timers s) = (case alarmInterval s of None \<Rightarrow> [] | Some i \<Rightarrow> [i])"
    and "gains s = (case alarmGain s of None \<Rightarrow> [] | Some g \<Rightarrow> [g])"
  shows "stopAlarm s =
     s\<lparr>timers := [], alarmInterval := None, gains := [], alarmGain := None,
       alarmOscillator := None\<rparr>"
  using assms
  by (cases s) (auto simp: stopAlarm_def filter_own_handle split: option.splits)


lemma updateTouchState_start:
  "\<not> isTouching s \<Longrightarrow>
   updateTouchState True t s =
     Ok (s\<lparr>touchStartTime := Some t, isTouching := True, alertActive := False,
            statusText := ''TOUCHING'', statusDot_touching := True\<rparr>)"
  by (simp add: updateTouchState_def updateStatus_def)

lemma updateTouchState_below:
  "isTouching s \<Longrightarrow> \<not> alertActive s \<Longrightarrow> touchStartTime s = Some t0 \<Longrightarrow>
   t - t0 < touchThreshold s \<Longrightarrow> updateTouchState True t s = Ok s"
  by (simp add: updateTouchState_def duration_since_def Let_def)

lemma updateTouchState_alerting:
  "isTouching s \<Longrightarrow> alertActive s \<Longrightarrow> touchStartTime s = Some t0 \<Longrightarrow>
   updateTouchState True t s =
     Ok (s\<lparr>alertOverlay_active := True, durationText := DurationSeconds (t - t0)\<rparr>)"
  by (simp add: updateTouchState_def duration_since_def Let_def)

lemma updateTouchState_cross_sound:
  assumes "isTouching s" and "\<not> alertActive s" and "touchStartTime s = Some t0"
    and "touchThreshold s \<le> t - t0"
    and "enableSound s" and "alarmOscillator s = None" and "audioContext s \<noteq> None"
  shows "updateTouchState True t s =
     Ok (s\<lparr>alertActive := True, console := console s @ [LogAlert (t - t0)],
            alarmGain := Some (next_node s), gains := gains s @ [next_node s],
            next_node := Suc (next_node s), tones := tones s @ [1200],
            alarmInterval := Some (next_timer s),
            timers := timers s @ [(next_timer s, 1)],
            next_timer := Suc (next_timer s),
            alertOverlay_active := True, durationText := DurationSeconds (t - t0)\<rparr>)"
  using assms
  by (simp add: updateTouchState_def duration_since_def Let_def startAlarm_sound)

lemma updateTouchState_cross_silent:
  assumes "isTouching s" and "\<not> alertActive s" and "touchStartTime s = Some t0"
    and "touchThreshold s \<le> t - t0" and "\<not> enableSound s"
  shows "updateTouchState True t s =
     Ok (s\<lparr>alertActive := True, console := console s @ [LogAlert (t - t0)],
            alertOverlay_active := True, durationText := DurationSeconds (t - t0)\<rparr>)"
  using assms
  by (simp add: updateTouchState_def duration_since_def Let_def startAlarm_silent)

lemma updateTouchState_clear:
  "updateTouchState False t s =
     Ok ((if isTouching s
          then stopAlarm (s\<lparr>console := console s @
                 [LogTouchEnded (duration_since t (touchStartTime s))]\<rparr>)
          else s)
         \<lparr>isTouching := False, touchStartTime := None, alertActive := False,
          alertOverlay_active := False, statusText := ''Clear'',
          statusDot_touching := False\<rparr>)"
  by (simp add: updateTouchState_def updateStatus_def Let_def)

section \<open>Every handler keeps the alarm invariant\<close>

lemma alarm_inv_constructed: "constructed s \<Longrightarrow> alarm_inv s"
  by (simp add: constructed_def alarm_inv_def)

lemma alarm_inv_same_but_canvas:
  assumes "same_but_canvas s s'"
  shows "alarm_inv s' = alarm_inv s" and "isRunning s' = isRunning s"
  using assms unfolding same_but_canvas_def alarm_inv_def
  by (cases s, cases s', simp)+

lemma alarm_inv_stopAlarm_fields:
  assumes "alarm_inv s"
  shows "stopAlarm s = s\<lparr>timers := [], alarmInterval := None, gains := [], alarmGain := None\<rparr>"
proof -
  have "stopAlarm s =
     s\<lparr>timers := [], alarmInterval := None, gains := [], alarmGain := None,
       alarmOscillator := None\<rparr>"
    using assms by (intro stopAlarm_clears) (simp_all add: alarm_inv_def)
  moreover have "alarmOscillator s = None"
    using assms by (simp add: alarm_inv_def)
  ultimately show ?thesis by (cases s) simp
qed

lemma alarm_inv_start_ok: "alarm_inv s \<Longrightarrow> alarm_inv (start_ok w h s)"
  by (simp add: alarm_inv_def start_ok_def updateStatus_def)

lemma alarm_inv_start_failed: "alarm_inv s \<Longrightarrow> alarm_inv (start_failed c s)"
  by (simp add: alarm_inv_def start_failed_def)

lemma alarm_inv_console: "alarm_inv (s\<lparr>console := c\<rparr>) = alarm_inv s"
  by (simp add: alarm_inv_def)

lemma alarm_inv_isRunning_False:
  "alarm_inv s \<Longrightarrow> stopAlarm (s\<lparr>isRunning := False\<rparr>) =
     s\<lparr>isRunning := False, timers := [], alarmInterval := None, gains := [], alarmGain := None,
       alarmOscillator := None\<rparr>"
  by (subst stopAlarm_clears) (simp_all add: alarm_inv_def)

lemma alarm_inv_stop: "alarm_inv s \<Longrightarrow> alarm_inv (stop s)"
  by (simp add: stop_def Let_def updateStatus_def alarm_inv_isRunning_False)
     (simp add: alarm_inv_def)

lemma alarm_inv_enableSound: "alarm_inv (s\<lparr>enableSound := c\<rparr>) = alarm_inv s"
  by (simp add: alarm_inv_def)

lemma alarm_inv_soundToggle:
  assumes "alarm_inv s"
  shows "alarm_inv (soundToggle_change c s)"
proof (cases c)
  case True
  then show ?thesis using assms by (simp add: soundToggle_change_def alarm_inv_enableSound)
next
  case False
  have inv: "alarm_inv (s\<lparr>enableSound := False\<rparr>)"
    using assms by (simp add: alarm_inv_enableSound)
  show ?thesis
    using inv unfolding soundToggle_change_def Let_def
    by (simp add: False alarm_inv_stopAlarm_fields) (simp add: alarm_inv_def)
qed

lemma alarm_inv_sliders:
  "alarm_inv s \<Longrightarrow> alarm_inv (thresholdSlider_input v s)"
  "alarm_inv s \<Longrightarrow> alarm_inv (sensitivitySlider_input n s)"
  "alarm_inv s \<Longrightarrow> alarm_inv (onFaceResults r s)"
  "alarm_inv s \<Longrightarrow> alarm_inv (s\<lparr>lastHandResults := hr\<rparr>)"
  "alarm_inv s \<Longrightarrow> alarm_inv (s\<lparr>canvas := c\<rparr>)"
  by (simp_all add: alarm_inv_def thresholdSlider_input_def sensitivitySlider_input_def
        onFaceResults_def)

lemma map_fst_retimed:
  "map fst (map (\<lambda>e. if fst e = h then (h, f) else e) ts) = map fst ts"
  by (induction ts) auto

lemma alarm_inv_timer_fires:
  assumes "alarm_inv s"
  shows "alarm_inv (state_of (timer_fires h s))"
proof (cases "map_of (timers s) h")
  case None
  then show ?thesis using assms by (simp add: timer_fires_def)
next
  case (Some f)
  show ?thesis
    using assms
    by (auto simp: timer_fires_def Some playBeep_def alarm_inv_def map_fst_retimed)
qed

lemma alarm_inv_updateTouchState:
  assumes "alarm_inv s" and "isRunning s"
  shows "alarm_inv (state_of (updateTouchState b t s))"
proof (cases b)
  case False
  show ?thesis
  proof (cases "isTouching s")
    case True
    have "alarm_inv (s\<lparr>console := console s @
                 [LogTouchEnded (duration_since t (touchStartTime s))]\<rparr>)"
      using assms(1) by (simp add: alarm_inv_console)
    then show ?thesis
      using assms(2) True
      by (simp add: False updateTouchState_clear alarm_inv_stopAlarm_fields)
         (simp add: alarm_inv_def)
  next
    case nt: False
    then show ?thesis
      using assms by (simp add: False updateTouchState_clear) (auto simp add: alarm_inv_def)
  qed
next
  case True
  show ?thesis
  proof (cases "isTouching s")
    case False
    then show ?thesis
      using assms by (simp add: True updateTouchState_start) (auto simp add: alarm_inv_def)
  next
    case touching: True
    have ctx: "audioContext s \<noteq> None" and osc: "alarmOscillator s = None"
      using assms by (simp_all add: alarm_inv_def)
    show ?thesis
    proof (cases "alertActive s")
      case active: True
      then show ?thesis
        using assms touching
        by (simp add: True updateTouchState_def Let_def) (simp add: alarm_inv_def)
    next
      case inactive: False
      have idle: "alarmInterval s = None" "alarmGain s = None" "timers s = []" "gains s = []"
        using assms(1) inactive by (auto simp: alarm_inv_def)
      show ?thesis
      proof (cases "touchThreshold s \<le> duration_since t (touchStartTime s)")
        case below: False
        then show ?thesis
          using assms touching inactive
          by (simp add: True updateTouchState_def Let_def)
      next
        case cross: True
        show ?thesis
        proof (cases "enableSound s")
          case True
          then show ?thesis
            using assms touching inactive cross ctx osc idle \<open>b\<close>
            by (simp add: updateTouchState_def Let_def startAlarm_sound)
               (simp add: alarm_inv_def)
        next
          case False
          then show ?thesis
            using assms touching inactive cross \<open>b\<close>
            by (simp add: updateTouchState_def Let_def startAlarm_silent)
               (simp add: alarm_inv_def)
        qed
      qed
    qed
  qed
qed

lemma alarm_inv_processFrame:
  assumes "alarm_inv s"
  shows "alarm_inv (state_of (processFrame t s))"
proof (cases "isRunning s")
  case False
  then show ?thesis using assms by (simp add: processFrame_def)
next
  case True
  let ?s0 = "s\<lparr>canvas := []\<rparr>"
  have inv0: "alarm_inv ?s0" and run0: "isRunning ?s0"
    using assms True by (simp_all add: alarm_inv_sliders)
  have same: "same_but_canvas ?s0 (final_state (scan_detections ?s0))"
    by (rule scan_detections_pure)
  show ?thesis
  proof (cases "scan_detections ?s0")
    case (Threw s')
    then have "alarm_inv s'"
      using same inv0 by (simp add: alarm_inv_same_but_canvas)
    then show ?thesis using True by (simp add: processFrame_def Threw)
  next
    case (Ok r)
    obtain s' tn where r: "r = (s', tn)" by (cases r)
    have "alarm_inv s'" and "isRunning s'"
      using same inv0 run0 by (simp_all add: Ok r alarm_inv_same_but_canvas)
    then have "alarm_inv (state_of (updateTouchState tn t s'))"
      by (rule alarm_inv_updateTouchState)
    then show ?thesis using True by (simp add: processFrame_def Ok r)
  qed
qed

lemma alarm_inv_handle: "alarm_inv s \<Longrightarrow> alarm_inv (state_of (handle e s))"
  by (cases e)
     (simp_all add: alarm_inv_start_ok alarm_inv_start_failed alarm_inv_stop
        alarm_inv_soundToggle alarm_inv_sliders alarm_inv_timer_fires
        alarm_inv_processFrame onHandResults_def)

lemma reachable_alarm_inv: "reachable s \<Longrightarrow> alarm_inv s"
  by (induction rule: reachable.induct) (simp_all add: alarm_inv_constructed alarm_inv_handle)

lemma reachable_run: "reachable s \<Longrightarrow> list_all possible es \<Longrightarrow> reachable (run es s)"
  by (induction es arbitrary: s) (simp_all add: reachable_step)

section \<open>The concrete states\<close>

lemma constructed_app0: "constructed app0"
  by (simp add: constructed_def app0_def)

lemma reachable_running_ex: "reachable running_ex"
  unfolding running_ex_def
  by (rule reachable_run [OF reachable_init [OF constructed_app0]]) simp

lemma reachable_alerting_ex: "reachable alerting_ex"
  unfolding alerting_ex_def
  by (rule reachable_run [OF reachable_init [OF constructed_app0]]) simp

lemma running_ex_fields:
  "isRunning running_ex" "\<not> isTouching running_ex" "touchThreshold running_ex = 1"
  "enableSound running_ex" "next_timer running_ex = 1" "console running_ex = []"
  by (simp_all add: running_ex_def app0_def start_ok_def updateStatus_def)

lemma alerting_ex_value:
  "alerting_ex =
     \<lparr> touchThreshold = 1, proximityThreshold = 8 / 100, enableSound = True,
       isRunning = True, touchStartTime = Some 10, isTouching = True, alertActive = True,
       lastHandResults = Some hand_ex, lastFaceResults = Some face_ex,
       audioContext = Some (), alarmOscillator = None, alarmGain = Some 0,
       alarmInterval = Some 1, timers = [(1, 1)], next_timer = 2, gains = [0],
       next_node = 1, tones = [1200], alertOverlay_active = True,
       statusText = ''TOUCHING'', statusDot_touching = True,
       durationText = DurationSeconds 1,
       canvas = StrokeRect ''#00FF00'' 2 256 192 128 96 #
                replicate 23 (Line ''#FF0000'' 2 320 240 320 240) @
                replicate 21 (Disc ''#00FF00'' 320 240 3),
       canvas_width = 640, canvas_height = 480, strokeStyle = ''#FF0000'', lineWidth = 2,
       fillStyle = ''#00FF00'', console = [LogAlert 1] \<rparr>"
  by code_simp

lemma alerting_ex_fields:
  "isRunning alerting_ex" "isTouching alerting_ex" "alertActive alerting_ex"
  "touchStartTime alerting_ex = Some 10" "touchThreshold alerting_ex = 1"
  "enableSound alerting_ex" "alarmInterval alerting_ex = Some 1"
  "alarmGain alerting_ex = Some 0" "timers alerting_ex = [(1, 1)]" "gains alerting_ex = [0]"
  "audioContext alerting_ex = Some ()" "alarmOscillator alerting_ex = None"
  "next_timer alerting_ex = 2" "next_node alerting_ex = 1"
  "durationText alerting_ex = DurationSeconds 1"
  by (simp_all add: alerting_ex_value)

section \<open>Runs of touching evaluations\<close>

lemma touching_run_below:
  assumes "isTouching s" and "\<not> alertActive s" and "touchStartTime s = Some t0"
    and "\<forall>u \<in> set us. u - t0 < touchThreshold s"
  shows "touching_run us s = Ok s"
  using assms by (induction us) (simp_all add: updateTouchState_below)

lemma touching_run_alerting:
  assumes "isTouching s" and "alertActive s" and "alertOverlay_active s"
    and "touchStartTime s = Some t0"
  shows "\<exists>s'. touching_run us s = Ok s' \<and> s'\<lparr>durationText := durationText s\<rparr> = s"
  using assms
proof (induction us arbitrary: s)
  case Nil
  show ?case by simp
next
  case (Cons u us)
  let ?s1 = "s\<lparr>alertOverlay_active := True, durationText := DurationSeconds (u - t0)\<rparr>"
  have step: "updateTouchState True u s = Ok ?s1"
    using Cons.prems by (simp add: updateTouchState_alerting)
  obtain s' where ran: "touching_run us ?s1 = Ok s'"
    and restore: "s'\<lparr>durationText := durationText ?s1\<rparr> = ?s1"
    using Cons.IH [of ?s1] Cons.prems by auto
  have "s'\<lparr>durationText := durationText s\<rparr> =
        (s'\<lparr>durationText := durationText ?s1\<rparr>)\<lparr>durationText := durationText s\<rparr>"
    by simp
  also have "\<dots> = ?s1\<lparr>durationText := durationText s\<rparr>"
    by (simp only: restore)
  also have "\<dots> = s"
    using Cons.prems(3) by (cases s) simp
  finally show ?case
    by (simp add: step ran)
qed

section \<open>What an evaluation computes, and which events run one\<close>

lemma updateTouchState_touch_fields:
  "isTouching (state_of (updateTouchState b t s)) = b"
  "touchStartTime (state_of (updateTouchState b t s)) =
     (if b then (if isTouching s then touchStartTime s else Some t) else None)"
  "lastFaceResults (state_of (updateTouchState b t s)) = lastFaceResults s"
  by (auto simp: updateTouchState_def updateStatus_def startAlarm_def playBeep_def
        stopAlarm_def Let_def split: option.splits)

lemma same_but_canvas_more_fields:
  assumes "same_but_canvas s s'"
  shows "isTouching s' = isTouching s" and "touchStartTime s' = touchStartTime s"
    and "alertActive s' = alertActive s" and "alarm_resources s' = alarm_resources s"
  using assms unfolding same_but_canvas_def alarm_resources_def
  by (cases s, cases s', simp)+

lemma processFrame_running:
  assumes "isRunning s" and "\<forall>h \<in> set (hands_of (lastHandResults s)). length h = 21"
  shows "\<exists>s'. same_but_canvas s s' \<and>
     processFrame t s =
       updateTouchState
         (\<exists>d \<in> set (faces_of (lastFaceResults s)). \<exists>h \<in> set (hands_of (lastHandResults s)).
            isHandNearFace s h (boundingBox d) = Some True) t s'"
proof -
  let ?s0 = "s\<lparr>canvas := []\<rparr>"
  let ?b = "\<exists>d \<in> set (faces_of (lastFaceResults s)). \<exists>h \<in> set (hands_of (lastHandResults s)).
            isHandNearFace s h (boundingBox d) = Some True"
  have wf: "\<forall>h \<in> set (hands_of (lastHandResults s)). 21 \<le> length h"
    using assms(2) by simp
  have touch: "touching_of (scan_detections ?s0) = Some ?b"
    using wf by (simp add: scan_detections_pure touch_faces_wf isHandNearFace_near)
  have same0: "same_but_canvas s ?s0"
    by (rule same_but_canvas_paint(1))
  have same: "same_but_canvas ?s0 (final_state (scan_detections ?s0))"
    by (rule scan_detections_pure)
  show ?thesis
  proof (cases "scan_detections ?s0")
    case (Threw s')
    then show ?thesis using touch by simp
  next
    case (Ok r)
    obtain s' tn where r: "r = (s', tn)" by (cases r)
    have tn: "tn = ?b"
      using touch by (simp add: Ok r)
    have "same_but_canvas ?s0 s'"
      using same by (simp add: Ok r)
    with same0 have "same_but_canvas s s'"
      by (rule same_but_canvas_trans)
    moreover have "processFrame t s = updateTouchState ?b t s'"
      using assms(1) by (simp add: processFrame_def Ok r tn)
    ultimately show ?thesis by blast
  qed
qed


lemma processFrame_lastFaceResults:
  "lastFaceResults (state_of (processFrame t s)) = lastFaceResults s"
proof (cases "isRunning s")
  case False
  then show ?thesis by (simp add: processFrame_def)
next
  case True
  let ?s0 = "s\<lparr>canvas := []\<rparr>"
  have same: "same_but_canvas ?s0 (final_state (scan_detections ?s0))"
    by (rule scan_detections_pure)
  show ?thesis
  proof (cases "scan_detections ?s0")
    case (Threw s')
    then have "lastFaceResults s' = lastFaceResults ?s0"
      using same same_but_canvas_fields(3) [of ?s0 s'] by simp
    then show ?thesis using True by (simp add: processFrame_def Threw)
  next
    case (Ok r)
    obtain s' tn where r: "r = (s', tn)" by (cases r)
    have "lastFaceResults s' = lastFaceResults ?s0"
      using same same_but_canvas_fields(3) [of ?s0 s'] by (simp add: Ok r)
    then show ?thesis
      using True by (simp add: processFrame_def Ok r updateTouchState_touch_fields)
  qed
qed

lemma handle_keeps_face_cache:
  "is_face_event e \<or> lastFaceResults (state_of (handle e s)) = lastFaceResults s"
proof (cases e)
  case (HandResults r t)
  then show ?thesis by (simp add: onHandResults_def processFrame_lastFaceResults)
next
  case (TimerFires h)
  then show ?thesis
    by (auto simp: timer_fires_def playBeep_def split: option.splits)
next
  case StopClick
  then show ?thesis
    by (simp add: stop_def stopAlarm_def updateStatus_def Let_def split: option.splits)
next
  case (SoundToggle c)
  then show ?thesis
    by (simp add: soundToggle_change_def stopAlarm_def Let_def split: option.splits)
qed (simp_all add: start_ok_def start_failed_def updateStatus_def thresholdSlider_input_def
       sensitivitySlider_input_def)

lemma handle_keeps_touch_state:
  "is_hand_event e \<or> e = StopClick \<or>
   (isTouching (state_of (handle e s)) = isTouching s \<and>
    touchStartTime (state_of (handle e s)) = touchStartTime s \<and>
    alertActive (state_of (handle e s)) = alertActive s)"
proof (cases e)
  case (TimerFires h)
  then show ?thesis
    by (auto simp: timer_fires_def playBeep_def split: option.splits)
next
  case (SoundToggle c)
  then show ?thesis
    by (simp add: soundToggle_change_def stopAlarm_def Let_def split: option.splits)
qed (simp_all add: start_ok_def start_failed_def updateStatus_def thresholdSlider_input_def
       sensitivitySlider_input_def onFaceResults_def)

lemma face_arrivals_cache:
  "foldl (\<lambda>s' r. onFaceResults r s') s (fs @ [f]) = s\<lparr>lastFaceResults := Some f\<rparr>"
  by (induction fs arbitrary: s) (simp_all add: onFaceResults_def)

section \<open>No handler starts a running alarm again\<close>




section \<open>The claims\<close>

text \<open>
  C1, as amended.  When every hand of the cached hand result has 21 landmarks, the
  value of \<open>touchingNow\<close> computed by \<open>processFrame\<close> is true exactly when some hand
  has a key point inside the margin-expanded box of some detection of the cached face
  result: the loop visits every detected face, not only the first.
\<close>

theorem touchingNow_any_face:
  assumes "\<forall>h \<in> set (hands_of (lastHandResults this)). length h = 21"
  shows "touching_of (scan_detections this) =
     Some (\<exists>d \<in> set (faces_of (lastFaceResults this)).
           \<exists>h \<in> set (hands_of (lastHandResults this)).
             isHandNearFace this h (boundingBox d) = Some True)"
proof -
  have wf: "\<forall>h \<in> set (hands_of (lastHandResults this)). 21 \<le> length h"
    using assms by simp
  show ?thesis
    using wf by (simp add: scan_detections_pure touch_faces_wf isHandNearFace_near)
qed

text \<open>The amended statement at the two-face state: the hypothesis holds and the result is true.\<close>

theorem touchingNow_any_face_witness:
  "hands_of (lastHandResults two_faces_ex) = [centre_hand] \<and> length centre_hand = 21 \<and>
   faces_of (lastFaceResults two_faces_ex) = [far_face, near_face] \<and>
   isHandNearFace two_faces_ex centre_hand (boundingBox near_face) = Some True \<and>
   touching_of (scan_detections two_faces_ex) = Some True"
proof -
  have hands: "hands_of (lastHandResults two_faces_ex) = [centre_hand]"
    and faces: "faces_of (lastFaceResults two_faces_ex) = [far_face, near_face]"
    and near_it: "isHandNearFace two_faces_ex centre_hand (boundingBox near_face) = Some True"
    by code_simp+
  have len: "length centre_hand = 21"
    by (simp add: centre_hand_def)
  have "\<forall>h \<in> set (hands_of (lastHandResults two_faces_ex)). length h = 21"
    by (simp add: hands len)
  then have "touching_of (scan_detections two_faces_ex) = Some True"
    using touchingNow_any_face [of two_faces_ex] by (simp add: hands faces near_it)
  then show ?thesis
    by (simp add: hands faces near_it len)
qed

text \<open>
  C1 as stated fails: with two detected faces and one hand that is near the second
  face only, the hand is not near the first face and yet \<open>touchingNow\<close> is true, and
  the hand result that arrives at clock reading 10 makes the monitor touching.
\<close>

theorem second_face_counts_counterexample:
  "faces_of (lastFaceResults two_faces_ex) = [far_face, near_face] \<and>
   hands_of (lastHandResults two_faces_ex) = [centre_hand] \<and>
   isHandNearFace two_faces_ex centre_hand (boundingBox far_face) = Some False \<and>
   touching_of (scan_detections two_faces_ex) = Some True \<and>
   isTouching (state_of (onHandResults one_hand 10 two_faces_seen))"
  by code_simp





text \<open>
  C3.  Take a running, reachable state that is not touching, and a run of evaluations
  with \<open>touchingNow = true\<close> at the clock readings \<open>t0\<close>, \<open>before\<close>, \<open>t\<close>, \<open>after\<close>,
  where every reading up to \<open>t\<close> has elapsed time below the threshold and \<open>t\<close> is
  the first with \<open>t - t0 >= threshold\<close> (so the threshold is positive).  Up to \<open>t\<close>
  the session started at \<open>t0\<close> is not alerting and no alarm was started; the
  evaluation at \<open>t\<close> sets the alert flag, logs the alert and, with sound enabled,
  registers exactly one timer; the later evaluations change nothing but the displayed
  duration, so the alarm is not started again.  The clock readings need not even be
  ordered.
\<close>

theorem alerting_entered_once_at_threshold:
  assumes "reachable s" and "isRunning s" and "\<not> isTouching s"
    and "\<forall>u \<in> set (t0 # before). u - t0 < touchThreshold s"
    and "touchThreshold s \<le> t - t0"
  shows "\<exists>s1 s2 s3.
     touching_run (t0 # before) s = Ok s1 \<and>
       isTouching s1 \<and> touchStartTime s1 = Some t0 \<and> \<not> alertActive s1 \<and>
       alarmInterval s1 = None \<and> timers s1 = [] \<and>
       console s1 = console s \<and> next_timer s1 = next_timer s \<and>
     updateTouchState True t s1 = Ok s2 \<and>
       alertActive s2 \<and> alertOverlay_active s2 \<and>
       console s2 = console s @ [LogAlert (t - t0)] \<and>
       timers s2 = (if enableSound s then [(next_timer s, 1)] else []) \<and>
       next_timer s2 = (if enableSound s then Suc (next_timer s) else next_timer s) \<and>
     touching_run after s2 = Ok s3 \<and> s3\<lparr>durationText := durationText s2\<rparr> = s2"
proof -
  have inv: "alarm_inv s"
    using assms(1) by (rule reachable_alarm_inv)
  have idle: "alarmInterval s = None" "timers s = []"
    and ctx: "audioContext s \<noteq> None" and osc: "alarmOscillator s = None"
    using inv assms(2,3) by (auto simp: alarm_inv_def)
  define s1 where "s1 = s\<lparr>touchStartTime := Some t0, isTouching := True, alertActive := False,
            statusText := ''TOUCHING'', statusDot_touching := True\<rparr>"
  have first: "updateTouchState True t0 s = Ok s1"
    using assms(3) by (simp add: s1_def updateTouchState_start)
  have s1_fields: "isTouching s1" "\<not> alertActive s1" "touchStartTime s1 = Some t0"
    "touchThreshold s1 = touchThreshold s" "alarmInterval s1 = None" "timers s1 = []"
    "console s1 = console s" "next_timer s1 = next_timer s" "enableSound s1 = enableSound s"
    "audioContext s1 \<noteq> None" "alarmOscillator s1 = None"
    using idle ctx osc by (simp_all add: s1_def)
  have "\<forall>u \<in> set before. u - t0 < touchThreshold s1"
    using assms(4) by (simp add: s1_fields(4))
  with s1_fields(1-3) have "touching_run before s1 = Ok s1"
    by (rule touching_run_below)
  then have run1: "touching_run (t0 # before) s = Ok s1"
    by (simp add: first)
  obtain s2 where cross: "updateTouchState True t s1 = Ok s2"
    and s2_fields: "isTouching s2" "alertActive s2" "alertOverlay_active s2"
      "touchStartTime s2 = Some t0"
      "console s2 = console s @ [LogAlert (t - t0)]"
      "timers s2 = (if enableSound s then [(next_timer s, 1)] else [])"
      "next_timer s2 = (if enableSound s then Suc (next_timer s) else next_timer s)"
  proof (cases "enableSound s")
    case True
    have "updateTouchState True t s1 =
     Ok (s1\<lparr>alertActive := True, console := console s1 @ [LogAlert (t - t0)],
            alarmGain := Some (next_node s1), gains := gains s1 @ [next_node s1],
            next_node := Suc (next_node s1), tones := tones s1 @ [1200],
            alarmInterval := Some (next_timer s1),
            timers := timers s1 @ [(next_timer s1, 1)],
            next_timer := Suc (next_timer s1),
            alertOverlay_active := True, durationText := DurationSeconds (t - t0)\<rparr>)"
      using s1_fields assms(5) True by (intro updateTouchState_cross_sound) simp_all
    then show ?thesis
      using that True s1_fields by simp
  next
    case False
    have "updateTouchState True t s1 =
     Ok (s1\<lparr>alertActive := True, console := console s1 @ [LogAlert (t - t0)],
            alertOverlay_active := True, durationText := DurationSeconds (t - t0)\<rparr>)"
      using s1_fields assms(5) False by (intro updateTouchState_cross_silent) simp_all
    then show ?thesis
      using that False s1_fields by simp
  qed
  obtain s3 where run3: "touching_run after s2 = Ok s3"
    and restore: "s3\<lparr>durationText := durationText s2\<rparr> = s2"
    using touching_run_alerting [OF s2_fields(1-4)] by blast
  show ?thesis
    using run1 s1_fields cross s2_fields run3 restore by blast
qed

text \<open>The run 0, 0.5, 1, 1.2, 2 with threshold 1 from the started object.\<close>

theorem alerting_entered_once_at_threshold_witness:
  "reachable running_ex \<and> isRunning running_ex \<and> \<not> isTouching running_ex \<and>
   (0 :: rat) - 0 < touchThreshold running_ex \<and> 1 / 2 - 0 < touchThreshold running_ex \<and>
   touchThreshold running_ex \<le> 1 - 0 \<and>
   (\<exists>s1 s2 s3.
     touching_run [0, 1 / 2] running_ex = Ok s1 \<and>
       isTouching s1 \<and> touchStartTime s1 = Some 0 \<and> \<not> alertActive s1 \<and>
       alarmInterval s1 = None \<and> timers s1 = [] \<and>
       console s1 = [] \<and> next_timer s1 = 1 \<and>
     updateTouchState True 1 s1 = Ok s2 \<and>
       alertActive s2 \<and> alertOverlay_active s2 \<and>
       console s2 = [LogAlert 1] \<and> timers s2 = [(1, 1)] \<and> next_timer s2 = 2 \<and>
     touching_run [6 / 5, 2] s2 = Ok s3 \<and> s3\<lparr>durationText := durationText s2\<rparr> = s2)"
proof -
  have h: "\<forall>u \<in> set [0, 1 / 2]. u - 0 < touchThreshold running_ex"
    "touchThreshold running_ex \<le> 1 - 0"
    by (simp_all add: running_ex_fields)
  show ?thesis
    using alerting_entered_once_at_threshold
      [OF reachable_running_ex running_ex_fields(1,2) h, of "[6 / 5, 2]"]
      reachable_running_ex h
    by (simp add: running_ex_fields numeral_2_eq_2)
qed

text \<open>
  C4.  From every running, reachable state one evaluation with \<open>touchingNow = false\<close>
  gives the clear state: not touching, no start time, alert flag and visual alert off,
  status \<open>Clear\<close>, no timer and no gain node left.  The next evaluation with
  \<open>touchingNow = true\<close> at \<open>t2\<close> records \<open>t2\<close> as start time, and a further
  touching evaluation at \<open>t3\<close> alerts exactly when \<open>t3 - t2\<close> reaches the threshold:
  nothing is carried over from before the gap.
\<close>

theorem not_touching_clears_and_next_touch_is_fresh:
  assumes "reachable s" and "isRunning s"
  shows "\<exists>s1 s2.
     updateTouchState False t1 s = Ok s1 \<and>
       \<not> isTouching s1 \<and> touchStartTime s1 = None \<and> \<not> alertActive s1 \<and>
       \<not> alertOverlay_active s1 \<and> statusText s1 = ''Clear'' \<and> \<not> statusDot_touching s1 \<and>
       alarmInterval s1 = None \<and> alarmGain s1 = None \<and> timers s1 = [] \<and> gains s1 = [] \<and>
     updateTouchState True t2 s1 = Ok s2 \<and>
       isTouching s2 \<and> touchStartTime s2 = Some t2 \<and> \<not> alertActive s2 \<and>
       statusText s2 = ''TOUCHING'' \<and>
     (\<forall>t3. \<exists>s3. updateTouchState True t3 s2 = Ok s3 \<and>
              alertActive s3 = (touchThreshold s \<le> t3 - t2))"
proof -
  have inv: "alarm_inv s"
    using assms(1) by (rule reachable_alarm_inv)
  have "alarm_inv (state_of (updateTouchState False t1 s))"
    using inv assms(2) by (rule alarm_inv_updateTouchState)
  moreover obtain s1 where clear: "updateTouchState False t1 s = Ok s1"
    and s1_fields: "\<not> isTouching s1" "touchStartTime s1 = None" "\<not> alertActive s1"
      "\<not> alertOverlay_active s1" "statusText s1 = ''Clear''" "\<not> statusDot_touching s1"
      "isRunning s1" "touchThreshold s1 = touchThreshold s"
    using assms(2) by (cases "isTouching s") (simp_all add: updateTouchState_clear stopAlarm_def Let_def split: option.splits)
  ultimately have inv1: "alarm_inv s1"
    by simp
  have idle: "alarmInterval s1 = None" "alarmGain s1 = None" "timers s1 = []" "gains s1 = []"
    and ctx: "audioContext s1 \<noteq> None" and osc: "alarmOscillator s1 = None"
    using inv1 s1_fields(1,7) by (auto simp: alarm_inv_def)
  define s2 where "s2 = s1\<lparr>touchStartTime := Some t2, isTouching := True, alertActive := False,
            statusText := ''TOUCHING'', statusDot_touching := True\<rparr>"
  have fresh: "updateTouchState True t2 s1 = Ok s2"
    using s1_fields(1) by (simp add: s2_def updateTouchState_start)
  have s2_fields: "isTouching s2" "\<not> alertActive s2" "touchStartTime s2 = Some t2"
    "touchThreshold s2 = touchThreshold s" "statusText s2 = ''TOUCHING''"
    "audioContext s2 \<noteq> None" "alarmOscillator s2 = None"
    using ctx osc s1_fields(8) by (simp_all add: s2_def)
  have later: "\<exists>s3. updateTouchState True t3 s2 = Ok s3 \<and>
              alertActive s3 = (touchThreshold s \<le> t3 - t2)" for t3
  proof (cases "touchThreshold s \<le> t3 - t2")
    case False
    then have "t3 - t2 < touchThreshold s2"
      by (simp add: s2_fields(4))
    with s2_fields(1-3) have "updateTouchState True t3 s2 = Ok s2"
      by (rule updateTouchState_below)
    then show ?thesis using False s2_fields(2) by simp
  next
    case True
    show ?thesis
    proof (cases "enableSound s2")
      case sound: True
      show ?thesis
        using updateTouchState_cross_sound [OF s2_fields(1-3) _ sound s2_fields(7,6), of t3]
          True s2_fields(4) by simp
    next
      case silent: False
      show ?thesis
        using updateTouchState_cross_silent [OF s2_fields(1-3) _ silent, of t3]
          True s2_fields(4) by simp
    qed
  qed
  show ?thesis
    using clear s1_fields(1-6) idle fresh s2_fields(1-3,5) later by blast
qed

text \<open>The clear evaluation at 12 and the fresh touch at 13, from the alerting state.\<close>

theorem not_touching_clears_and_next_touch_is_fresh_witness:
  "reachable alerting_ex \<and> isRunning alerting_ex \<and>
   (\<exists>s1 s2.
     updateTouchState False 12 alerting_ex = Ok s1 \<and>
       \<not> isTouching s1 \<and> touchStartTime s1 = None \<and> \<not> alertActive s1 \<and>
       \<not> alertOverlay_active s1 \<and> statusText s1 = ''Clear'' \<and> \<not> statusDot_touching s1 \<and>
       alarmInterval s1 = None \<and> alarmGain s1 = None \<and> timers s1 = [] \<and> gains s1 = [] \<and>
     updateTouchState True 13 s1 = Ok s2 \<and>
       isTouching s2 \<and> touchStartTime s2 = Some 13 \<and> \<not> alertActive s2 \<and>
       statusText s2 = ''TOUCHING'' \<and>
     (\<forall>t3. \<exists>s3. updateTouchState True t3 s2 = Ok s3 \<and>
              alertActive s3 = (1 \<le> t3 - 13)))"
  using not_touching_clears_and_next_touch_is_fresh
      [OF reachable_alerting_ex alerting_ex_fields(1), of 12 13]
    reachable_alerting_ex
  by (simp add: alerting_ex_fields)

text \<open>
  C5, as amended.  When the clock reading \<open>t\<close> is earlier than the recorded start
  time \<open>t0\<close> and the threshold is positive, the evaluation returns without throwing;
  the displayed duration is not clamped: while alerting and touching the label gets the
  negative number \<open>t - t0\<close>, and in every other case the label is left as it was.
\<close>

theorem backward_clock_does_not_crash_duration_unclamped:
  assumes "touchStartTime s = Some t0" and "t < t0" and "0 < touchThreshold s"
  shows "\<exists>s'. updateTouchState touchingNow t s = Ok s' \<and>
     durationText s' =
       (if touchingNow \<and> isTouching s \<and> alertActive s
        then DurationSeconds (t - t0) else durationText s) \<and>
     t - t0 < 0"
proof (cases touchingNow)
  case False
  then show ?thesis
    using assms(2)
    by (simp add: updateTouchState_clear stopAlarm_def Let_def split: option.splits)
next
  case True
  show ?thesis
  proof (cases "isTouching s")
    case False
    then show ?thesis using True assms(2) by (simp add: updateTouchState_start)
  next
    case touching: True
    show ?thesis
    proof (cases "alertActive s")
      case True
      then show ?thesis
        using \<open>touchingNow\<close> touching assms(1,2) by (simp add: updateTouchState_alerting)
    next
      case False
      have "t - t0 < touchThreshold s"
        using assms(2,3) by simp
      with touching False assms(1) have "updateTouchState True t s = Ok s"
        by (rule updateTouchState_below)
      then show ?thesis
        using \<open>touchingNow\<close> False assms(2) by simp
    qed
  qed
qed

text \<open>The alerting state, whose session started at 10, evaluated at 9.5.\<close>

theorem backward_clock_does_not_crash_duration_unclamped_witness:
  "touchStartTime alerting_ex = Some 10 \<and> (19 / 2 :: rat) < 10 \<and> 0 < touchThreshold alerting_ex \<and>
   (\<exists>s'. updateTouchState True (19 / 2) alerting_ex = Ok s' \<and>
      durationText s' = DurationSeconds (- (1 / 2)))"
  using backward_clock_does_not_crash_duration_unclamped
      [of alerting_ex 10 "19 / 2" True]
  by (simp add: alerting_ex_fields)

text \<open>
  C5 as stated fails: the alerting session started at 10, a hand result arrives at
  clock reading 9.5, and the label shows the duration -0.5.
\<close>

theorem displayed_duration_negative_counterexample:
  "touchStartTime alerting_ex = Some 10 \<and> (19 / 2 :: rat) < 10 \<and>
   durationText (state_of (handle (HandResults hand_ex (19 / 2)) alerting_ex)) =
     DurationSeconds (- (1 / 2)) \<and>
   (- (1 / 2) :: rat) < 0"
  by code_simp

text \<open>
  C6.  Two states with the same cached face result, the same cached hand result and
  the same proximity margin compute the same \<open>touchingNow\<close> (or both throw), whatever
  their touching flags, start times and alert flags are.
\<close>

theorem touchingNow_no_hysteresis:
  assumes "lastFaceResults s1 = lastFaceResults s2"
    and "lastHandResults s1 = lastHandResults s2"
    and "proximityThreshold s1 = proximityThreshold s2"
  shows "touching_of (scan_detections s1) = touching_of (scan_detections s2)"
  using assms by (simp add: scan_detections_pure)

text \<open>The alerting state against the same monitor stopped and marked running again.\<close>

theorem touchingNow_no_hysteresis_witness:
  "lastFaceResults alerting_ex = lastFaceResults ((stop alerting_ex)\<lparr>isRunning := True\<rparr>) \<and>
   lastHandResults alerting_ex = lastHandResults ((stop alerting_ex)\<lparr>isRunning := True\<rparr>) \<and>
   proximityThreshold alerting_ex = proximityThreshold ((stop alerting_ex)\<lparr>isRunning := True\<rparr>) \<and>
   isTouching alerting_ex \<noteq> isTouching ((stop alerting_ex)\<lparr>isRunning := True\<rparr>) \<and>
   touching_of (scan_detections alerting_ex) =
     touching_of (scan_detections ((stop alerting_ex)\<lparr>isRunning := True\<rparr>))"
proof -
  have same: "lastFaceResults alerting_ex = lastFaceResults ((stop alerting_ex)\<lparr>isRunning := True\<rparr>)"
    "lastHandResults alerting_ex = lastHandResults ((stop alerting_ex)\<lparr>isRunning := True\<rparr>)"
    "proximityThreshold alerting_ex = proximityThreshold ((stop alerting_ex)\<lparr>isRunning := True\<rparr>)"
    by (simp_all add: stop_def stopAlarm_def updateStatus_def Let_def split: option.splits)
  have differ: "isTouching alerting_ex \<noteq> isTouching ((stop alerting_ex)\<lparr>isRunning := True\<rparr>)"
    by (simp add: alerting_ex_fields stop_def updateStatus_def Let_def)
  show ?thesis
    using touchingNow_no_hysteresis [OF same] same differ by simp
qed

text \<open>
  C7.  In a reachable alerting state, unchecking the sound box clears the sound flag,
  cancels the timer, disconnects the gain node and drops both handles; every other
  field, the alert flag, touching flag, start time and visual alert among them, is
  unchanged.
\<close>

theorem disabling_sound_stops_alarm_only:
  assumes "reachable s" and "isTouching s" and "alertActive s"
  shows "soundToggle_change False s =
     s\<lparr>enableSound := False, alarmInterval := None, alarmGain := None,
       timers := [], gains := []\<rparr>"
proof -
  have "alarm_inv s"
    using assms(1) by (rule reachable_alarm_inv)
  then have "alarm_inv (s\<lparr>enableSound := False\<rparr>)"
    by (simp add: alarm_inv_enableSound)
  then have "stopAlarm (s\<lparr>enableSound := False\<rparr>) =
     s\<lparr>enableSound := False, timers := [], alarmInterval := None, gains := [],
       alarmGain := None\<rparr>"
    by (rule alarm_inv_stopAlarm_fields)
  then show ?thesis
    by (simp add: soundToggle_change_def Let_def)
qed

text \<open>Unchecking the box in the alerting state, where timer 1 and gain node 0 are live.\<close>

theorem disabling_sound_stops_alarm_only_witness:
  "reachable alerting_ex \<and> isTouching alerting_ex \<and> alertActive alerting_ex \<and>
   timers alerting_ex = [(1, 1)] \<and> gains alerting_ex = [0] \<and>
   soundToggle_change False alerting_ex =
     alerting_ex\<lparr>enableSound := False, alarmInterval := None, alarmGain := None,
       timers := [], gains := []\<rparr>"
  using disabling_sound_stops_alarm_only
      [OF reachable_alerting_ex alerting_ex_fields(2,3)]
    reachable_alerting_ex
  by (simp add: alerting_ex_fields)

text \<open>
  C8.  With margin 0, a hand of 21 landmarks one of whose key points lies on a side of
  a face box (of non-negative width and height) is near the face: all four bounds are
  inclusive.
\<close>

theorem isHandNearFace_edge_inclusive:
  assumes "proximityThreshold this = 0" and "length hand = 21"
    and "idx \<in> set keyPoints" and "0 \<le> width face" and "0 \<le> height face"
    and "on_box_edge (hand ! idx) face"
  shows "isHandNearFace this hand face = Some True"
proof -
  have "in_box (hand ! idx) (expand 0 face)"
    using assms(4-6) by (auto simp: in_box_def expand_def on_box_edge_def)
  then have "near 0 hand face"
    using assms(3) by (auto simp: near_def)
  then show ?thesis
    using assms(1,2) by (simp add: isHandNearFace_near)
qed

text \<open>The index fingertip on the left side of the face box.\<close>

theorem isHandNearFace_edge_inclusive_witness:
  "proximityThreshold (app0\<lparr>proximityThreshold := 0\<rparr>) = 0 \<and> length edge_hand = 21 \<and>
   8 \<in> set keyPoints \<and> 0 \<le> width (boundingBox near_face) \<and>
   0 \<le> height (boundingBox near_face) \<and>
   on_box_edge (edge_hand ! 8) (boundingBox near_face) \<and>
   isHandNearFace (app0\<lparr>proximityThreshold := 0\<rparr>) edge_hand (boundingBox near_face) = Some True"
proof -
  have h: "proximityThreshold (app0\<lparr>proximityThreshold := 0\<rparr>) = 0" "length edge_hand = 21"
    "8 \<in> set keyPoints" "0 \<le> width (boundingBox near_face)"
    "0 \<le> height (boundingBox near_face)"
    "on_box_edge (edge_hand ! 8) (boundingBox near_face)"
    by (simp_all add: edge_hand_def keyPoints_def near_face_def on_box_edge_def)
  show ?thesis
    using isHandNearFace_edge_inclusive [OF h] h by simp
qed

text \<open>
  C9.  A face result only overwrites the cached face result: every other field stays.
  On a running monitor, a hand result (of 21-landmark hands) that arrives after any
  number of face results is the state-machine update at the arrival's clock reading
  with the geometry of the latest face result and the new hand result; afterwards the
  monitor is touching exactly when some hand is near some face of that latest face
  result, and the session start is kept, set to the arrival's time, or cleared
  accordingly.  No age of the face result is recorded or consulted: only a face result
  changes the cache.  No event other than a hand result (and the stop button, which
  resets it) changes the touching flag, the start time or the alert flag.
\<close>

theorem evaluation_on_hand_results_only:
  assumes "isRunning s" and "\<forall>hand \<in> set (hands_of (Some h)). length hand = 21"
  shows
    "(onFaceResults f s)\<lparr>lastFaceResults := lastFaceResults s\<rparr> = s \<and>
     (\<exists>s'. same_but_canvas (s\<lparr>lastFaceResults := Some f, lastHandResults := Some h\<rparr>) s' \<and>
        onHandResults h t (foldl (\<lambda>s' r. onFaceResults r s') s (fs @ [f])) =
          updateTouchState
            (\<exists>d \<in> set (faces_of (Some f)). \<exists>hand \<in> set (hands_of (Some h)).
               isHandNearFace s hand (boundingBox d) = Some True) t s') \<and>
     isTouching (state_of (onHandResults h t (foldl (\<lambda>s' r. onFaceResults r s') s (fs @ [f])))) =
       (\<exists>d \<in> set (faces_of (Some f)). \<exists>hand \<in> set (hands_of (Some h)).
          isHandNearFace s hand (boundingBox d) = Some True) \<and>
     touchStartTime
         (state_of (onHandResults h t (foldl (\<lambda>s' r. onFaceResults r s') s (fs @ [f])))) =
       (if (\<exists>d \<in> set (faces_of (Some f)). \<exists>hand \<in> set (hands_of (Some h)).
              isHandNearFace s hand (boundingBox d) = Some True)
        then (if isTouching s then touchStartTime s else Some t) else None) \<and>
     (is_face_event e \<or> lastFaceResults (state_of (handle e s)) = lastFaceResults s) \<and>
     (is_hand_event e \<or> e = StopClick \<or>
      (isTouching (state_of (handle e s)) = isTouching s \<and>
       touchStartTime (state_of (handle e s)) = touchStartTime s \<and>
       alertActive (state_of (handle e s)) = alertActive s))"
proof -
  let ?s1 = "s\<lparr>lastFaceResults := Some f, lastHandResults := Some h\<rparr>"
  let ?b = "\<exists>d \<in> set (faces_of (Some f)). \<exists>hand \<in> set (hands_of (Some h)).
               isHandNearFace s hand (boundingBox d) = Some True"
  have arrival: "onHandResults h t (foldl (\<lambda>s' r. onFaceResults r s') s (fs @ [f])) =
      processFrame t ?s1"
    unfolding face_arrivals_cache by (simp add: onHandResults_def)
  have near_eq: "isHandNearFace ?s1 hand b = isHandNearFace s hand b" for hand b
    by (simp add: isHandNearFace_def)
  have "isRunning ?s1" and "\<forall>hand \<in> set (hands_of (lastHandResults ?s1)). length hand = 21"
    using assms by simp_all
  then obtain s' where same: "same_but_canvas ?s1 s'"
    and eval: "processFrame t ?s1 = updateTouchState ?b t s'"
    using processFrame_running [of ?s1 t] by (auto simp: near_eq)
  have touch: "isTouching s' = isTouching s" "touchStartTime s' = touchStartTime s"
    using same_but_canvas_more_fields(1,2) [OF same] by simp_all
  have cache_only: "(onFaceResults f s)\<lparr>lastFaceResults := lastFaceResults s\<rparr> = s"
    by (simp add: onFaceResults_def)
  have used: "\<exists>s'. same_but_canvas ?s1 s' \<and>
        onHandResults h t (foldl (\<lambda>s' r. onFaceResults r s') s (fs @ [f])) =
          updateTouchState ?b t s'"
    using same eval arrival by auto
  have now: "isTouching (state_of (onHandResults h t
        (foldl (\<lambda>s' r. onFaceResults r s') s (fs @ [f])))) = ?b"
    unfolding arrival eval by (rule updateTouchState_touch_fields(1))
  have start: "touchStartTime (state_of (onHandResults h t
        (foldl (\<lambda>s' r. onFaceResults r s') s (fs @ [f])))) =
       (if ?b then (if isTouching s then touchStartTime s else Some t) else None)"
    unfolding arrival eval updateTouchState_touch_fields(2) touch ..
  show ?thesis
    using cache_only used now start handle_keeps_face_cache [of e s]
      handle_keeps_touch_state [of e s]
    by (intro conjI)
qed


text \<open>
  The started monitor sees a far face, then a face at the centre, then a hand at the
  centre at clock reading 10: it is touching since 10.  Unchecking the sound box
  changes neither the cached face result nor the touching flag.
\<close>

theorem evaluation_on_hand_results_only_witness:
  "isRunning running_ex \<and> hands_of (Some hand_ex) = [centre_hand] \<and> length centre_hand = 21 \<and>
   faces_of (Some face_ex) = [near_face] \<and>
   isHandNearFace running_ex centre_hand (boundingBox near_face) = Some True \<and>
   isTouching (state_of (onHandResults hand_ex 10
      (foldl (\<lambda>s' r. onFaceResults r s') running_ex
         ([\<lparr> detections = Some [far_face] \<rparr>] @ [face_ex])))) \<and>
   touchStartTime (state_of (onHandResults hand_ex 10
      (foldl (\<lambda>s' r. onFaceResults r s') running_ex
         ([\<lparr> detections = Some [far_face] \<rparr>] @ [face_ex])))) = Some 10 \<and>
   lastFaceResults (state_of (handle (SoundToggle False) running_ex)) =
     lastFaceResults running_ex \<and>
   isTouching (state_of (handle (SoundToggle False) running_ex)) = isTouching running_ex"
proof -
  have hands: "hands_of (Some hand_ex) = [centre_hand]"
    and faces: "faces_of (Some face_ex) = [near_face]"
    and near_it: "isHandNearFace running_ex centre_hand (boundingBox near_face) = Some True"
    by code_simp+
  have len: "length centre_hand = 21"
    by (simp add: centre_hand_def)
  have wf: "\<forall>hand \<in> set (hands_of (Some hand_ex)). length hand = 21"
    by (simp add: hands len)
  show ?thesis
    using evaluation_on_hand_results_only
      [OF running_ex_fields(1) wf, of face_ex 10 "[\<lparr> detections = Some [far_face] \<rparr>]"
        "SoundToggle False"]
    by (simp add: hands faces near_it len running_ex_fields)
qed

text \<open>
  C10.  When the monitor is not running, \<open>processFrame\<close> returns at once with the
  state unchanged, so a hand result changes nothing but the cached hand result: the
  touching state, start time, alert flag, alarm resources, status label and canvas
  stay as they were.
\<close>

theorem processFrame_not_running_noop:
  assumes "\<not> isRunning s"
  shows "processFrame t s = Ok s \<and>
     onHandResults r t s = Ok (s\<lparr>lastHandResults := Some r\<rparr>)"
  using assms by (simp add: processFrame_def onHandResults_def)

text \<open>A hand result that arrives after the alerting monitor was stopped.\<close>

theorem processFrame_not_running_noop_witness:
  "\<not> isRunning (stop alerting_ex) \<and>
   processFrame 12 (stop alerting_ex) = Ok (stop alerting_ex) \<and>
   onHandResults hand_ex 12 (stop alerting_ex) =
     Ok ((stop alerting_ex)\<lparr>lastHandResults := Some hand_ex\<rparr>)"
proof -
  have "\<not> isRunning (stop alerting_ex)"
    by (simp add: stop_def stopAlarm_def updateStatus_def Let_def split: option.splits)
  then show ?thesis
    using processFrame_not_running_noop [of "stop alerting_ex" 12 hand_ex] by simp
qed

end
